theory Spec2Isabelle
  imports Complex_Main "HOL-Library.Log_Nat"
begin

unbundle bit_operations_syntax

section \<open>JavaScript numbers\<close>

text \<open>
  Every value of \<open>App.tsx\<close> is a JavaScript \<open>number\<close>, an IEEE 754 binary64 value.
  Two kinds of them occur.

  \<^item> Integers: seeds, bit fields and the two counters of a session. They are modelled as
    \<open>int\<close>. The bitwise operators first convert their operands with \<open>ToInt32\<close> (reduction
    modulo \<open>2^32\<close> into the signed range), which is written out below. Sums and products
    of integers are exact in binary64 while they stay below \<open>2^53\<close> in magnitude: this holds
    for \<open>seed * 65521\<close> whenever the seed is itself a 32-bit result (the product is below
    \<open>2^47\<close>), and for the counters of a session during any run a user can perform.

  \<^item> Fractions: the hue, saturation and value of a colour. They are modelled by the rational
    number a finite double denotes, and every division and multiplication the source performs
    on them rounds its exact result to the nearest double, ties to even
    (\<open>roundDouble\<close>). The rounding matters: \<open>(360 / 6) * (25 / 6)\<close> is not \<open>250\<close>
    in binary64. The rounding function is the one of the normal range of binary64
    (magnitudes from \<open>2^-1022\<close> up to \<open>2^1024\<close>); all values of this program lie
    between \<open>1/8\<close> and \<open>2^12\<close>, or are zero. No operation of the program yields
    \<open>NaN\<close> or an infinity, so \<open>===\<close> on two numbers is the equality of the rationals
    they denote.
\<close>

definition toInt32 :: "int \<Rightarrow> int" where
  "toInt32 x = signed_take_bit 31 x"

text \<open>The operators \<open>&\<close>, \<open>^\<close> and \<open>>>\<close> of JavaScript on integral numbers.\<close>

definition js_and :: "int \<Rightarrow> int \<Rightarrow> int" where
  "js_and a b = toInt32 a AND toInt32 b"

definition js_xor :: "int \<Rightarrow> int \<Rightarrow> int" where
  "js_xor a b = toInt32 a XOR toInt32 b"

definition js_shr :: "int \<Rightarrow> int \<Rightarrow> int" where
  "js_shr a b = drop_bit (nat (take_bit 5 b)) (toInt32 a)"

text \<open>Rounding a rational to binary64, to nearest, ties to even.\<close>

definition pow2 :: "int \<Rightarrow> rat" where
  "pow2 e = (if 0 \<le> e then 2 ^ nat e else 1 / 2 ^ nat (- e))"

text \<open>The exponent \<open>e\<close> with \<open>2^e \<le> x < 2^(e+1)\<close>, for positive \<open>x\<close>.\<close>

definition binade :: "rat \<Rightarrow> int" where
  "binade x = (if 1 \<le> x then bitlen \<lfloor>x\<rfloor> - 1 else - bitlen (\<lceil>1 / x\<rceil> - 1))"

definition roundHalfEven :: "rat \<Rightarrow> int" where
  "roundHalfEven q =
     (let f = \<lfloor>q\<rfloor>; d = q - of_int f
      in if d < 1 / 2 then f else if 1 / 2 < d then f + 1 else if even f then f else f + 1)"

definition roundDouble :: "rat \<Rightarrow> rat" where
  "roundDouble x =
     (if x = 0 then 0
      else let u = pow2 (binade \<bar>x\<bar> - 52)
           in sgn x * of_int (roundHalfEven (\<bar>x\<bar> / u)) * u)"

text \<open>
  The operators \<open>*\<close>, \<open>/\<close> and \<open>%\<close> on fractions. The remainder is exact in
  IEEE 754 and takes the sign of the dividend; its divisor is the constant \<open>360\<close> in every
  use, and no divisor of a division is zero.
\<close>

definition js_mul :: "rat \<Rightarrow> rat \<Rightarrow> rat" where
  "js_mul a b = roundDouble (a * b)"

definition js_div :: "rat \<Rightarrow> rat \<Rightarrow> rat" where
  "js_div a b = roundDouble (a / b)"

definition js_trunc :: "rat \<Rightarrow> int" where
  "js_trunc q = (if 0 \<le> q then \<lfloor>q\<rfloor> else \<lceil>q\<rceil>)"

definition js_rem :: "rat \<Rightarrow> rat \<Rightarrow> rat" where
  "js_rem a b = a - b * of_int (js_trunc (a / b))"

section \<open>Deriving a colour from a seed\<close>

datatype GuesserDifficulty = Easy | Medium | Hard

text \<open>
  The three derivations, operator for operator as in the source. The masks are written as
  the source parses them: \<open>>>\<close> binds tighter than \<open>&\<close>, and the source has
  \<open>seed & (0xff00 >> 8)\<close>, so the shift applies to the constant and not to the masked seed.
  Each function returns the array \<open>[hue, val, sat]\<close> as a triple.
\<close>

definition makeHSVEasy :: "int \<Rightarrow> rat \<times> rat \<times> rat" where
  "makeHSVEasy seed =
     (let hue0 = js_div (of_int (js_and seed (js_shr 0xff00 8))) 6;
          hue = js_rem (js_mul (js_div 360 6) hue0) 360;
          val = js_mul (js_div 100 4) (js_div (of_int (js_and seed (js_shr 0xf0 4))) 4);
          sat = js_mul (js_div 100 4) (js_div (of_int (js_and seed 0xf)) 4)
      in (hue, val, sat))"

definition makeHSVMedium :: "int \<Rightarrow> rat \<times> rat \<times> rat" where
  "makeHSVMedium seed =
     (let hue = js_rem (js_div (js_mul (js_div 360 16)
                  (of_int (js_and seed (js_shr 0xff00 8)))) 16) 360;
          val = js_mul (js_div 100 8) (js_div (of_int (js_and seed (js_shr 0xf0 4))) 2);
          sat = js_mul (js_div 100 8) (js_div (of_int (js_and seed 0xf)) 2)
      in (hue, val, sat))"

definition makeHSVHard :: "int \<Rightarrow> rat \<times> rat \<times> rat" where
  "makeHSVHard seed =
     (let hue = js_rem (js_mul (js_div 360 64) (of_int (js_and seed (js_shr 0x7f00 8)))) 360;
          val = js_mul (js_div 100 16) (of_int (js_and seed (js_shr 0xf0 4)));
          sat = js_mul (js_div 100 16) (of_int (js_and seed 0xf))
      in (hue, val, sat))"

fun makeHSV :: "GuesserDifficulty \<Rightarrow> int \<Rightarrow> rat \<times> rat \<times> rat" where
  "makeHSV Easy seed = makeHSVEasy seed"
| "makeHSV Medium seed = makeHSVMedium seed"
| "makeHSV Hard seed = makeHSVHard seed"

section \<open>Stepping the seed\<close>

definition TWIST :: "int list" where
  "TWIST = [32771, 16411, 14009, 11003]"

text \<open>
  Reading an array: an index outside the array gives \<open>undefined\<close>, which \<open>^\<close> converts
  to \<open>0\<close>.
\<close>

definition js_index :: "int list \<Rightarrow> int \<Rightarrow> int" where
  "js_index xs i = (if 0 \<le> i \<and> nat i < length xs then xs ! nat i else 0)"

text \<open>
  The function \<open>next\<close> of the source (\<open>next\<close> is a keyword of Isabelle). It returns the
  result of \<open>^\<close> as it is, a signed 32-bit integer.
\<close>

definition next_seed :: "int \<Rightarrow> int" where
  "next_seed seed = js_xor (seed * 65521) (js_index TWIST (js_and seed 0x3))"

section \<open>Sessions and rounds\<close>

text \<open>
  The interfaces \<open>GuesserSession\<close> and \<open>GuesserRound\<close>. The fields \<open>value\<close>,
  \<open>checking\<close> and \<open>seed\<close> of a round are named \<open>value_r\<close>, \<open>checking_r\<close> and
  \<open>seed_r\<close>: the first two are keywords of Isabelle, and \<open>seed\<close> is the field of the
  session.
\<close>

record GuesserSession =
  guessed :: int
  score :: int
  difficulty :: GuesserDifficulty
  seed :: int

record GuesserRound =
  hue :: rat
  saturation :: rat
  value_r :: rat
  checking_r :: bool
  seed_r :: int

text \<open>\<open>initSession\<close> reads the clock; the reading \<open>Date.now()\<close> is its parameter here.\<close>

definition initSession :: "int \<Rightarrow> GuesserSession" where
  "initSession now =
     \<lparr>guessed = 0, score = 0, difficulty = Easy, seed = js_and now 0xffff\<rparr>"

text \<open>
  \<open>makeRound\<close> destructures the array of \<open>makeHSV\<close> by position into
  \<open>[hue, saturation, value]\<close>.
\<close>

definition makeRound :: "GuesserDifficulty \<Rightarrow> int \<Rightarrow> GuesserRound" where
  "makeRound d sd =
     (case makeHSV d sd of (h, s, v) \<Rightarrow>
        \<lparr>hue = h, saturation = s, value_r = v, checking_r = False, seed_r = next_seed sd\<rparr>)"

text \<open>
  The two callbacks of the component. \<open>doCheck\<close> closes over the session, the round and the
  three slider values, and calls \<open>setRound\<close> and \<open>setSession\<close>: it is a function from the
  five to the new session and round. \<open>doNext\<close> calls \<open>setRound\<close> only.
\<close>

definition doCheck ::
  "GuesserSession \<Rightarrow> GuesserRound \<Rightarrow> rat \<Rightarrow> rat \<Rightarrow> rat \<Rightarrow> GuesserSession \<times> GuesserRound" where
  "doCheck ses rnd h s v =
     (let guessed' = guessed ses + 1;
          score' = score ses +
            (if h = hue rnd \<and> s = saturation rnd \<and> v = value_r rnd then 1 else 0)
      in (ses\<lparr>guessed := guessed', score := score'\<rparr>, rnd\<lparr>checking_r := True\<rparr>))"

definition doNext :: "GuesserSession \<Rightarrow> GuesserRound \<Rightarrow> GuesserRound" where
  "doNext ses rnd = makeRound (difficulty ses) (seed_r rnd)"

text \<open>
  The state of the component \<open>App\<close>: its five \<open>useState\<close> cells. The cell \<open>round\<close> is
  named \<open>round_st\<close>, and the slider cells \<open>hue\<close>, \<open>sat\<close>, \<open>val\<close> are
  \<open>hue_in\<close>, \<open>sat_in\<close>, \<open>val_in\<close>.
\<close>

record App =
  session :: GuesserSession
  round_st :: GuesserRound
  hue_in :: rat
  sat_in :: rat
  val_in :: rat

definition initApp :: "int \<Rightarrow> App" where
  "initApp now =
     (let ses = initSession now
      in \<lparr>session = ses, round_st = makeRound (difficulty ses) (seed ses),
          hue_in = 0, sat_in = 0, val_in = 0\<rparr>)"

text \<open>
  What a user can do: move a slider, or run one of the two callbacks. The button of the
  source runs \<open>doNext\<close> when the round is checking and \<open>doCheck\<close> otherwise; here both
  callbacks are enabled in every state, which includes every run of the button.
\<close>

datatype event = Check | Next | SetHue rat | SetSat rat | SetVal rat

fun step :: "event \<Rightarrow> App \<Rightarrow> App" where
  "step Check st =
     (case doCheck (session st) (round_st st) (hue_in st) (sat_in st) (val_in st) of
        (ses, rnd) \<Rightarrow> st\<lparr>session := ses, round_st := rnd\<rparr>)"
| "step Next st = st\<lparr>round_st := doNext (session st) (round_st st)\<rparr>"
| "step (SetHue x) st = st\<lparr>hue_in := x\<rparr>"
| "step (SetSat x) st = st\<lparr>sat_in := x\<rparr>"
| "step (SetVal x) st = st\<lparr>val_in := x\<rparr>"

definition run :: "event list \<Rightarrow> App \<Rightarrow> App" where
  "run evs st = fold step evs st"

section \<open>The derivation and the stepper as the specification words them\<close>

text \<open>
  Two definitions that follow the words of the specification, not the source; they are only
  compared with \<open>makeHSVHard\<close> and \<open>next_seed\<close>. The specification masks the seed first
  and shifts the masked value (\<open>(s & 0x7F00) >> 8\<close>), names the field of bits 4 to 7 the
  saturation and the field of bits 0 to 3 the value, and returns the triple in the order
  hue, value, saturation. Its stepper masks the result of \<open>^\<close> to 16 bits.
\<close>

definition makeHSVHard_spec :: "int \<Rightarrow> rat \<times> rat \<times> rat" where
  "makeHSVHard_spec s =
     (let hueField = drop_bit 8 (s AND 0x7F00);
          satField = drop_bit 4 (s AND 0xF0);
          valField = s AND 0xF;
          h = js_rem ((360 / 64) * of_int hueField) 360;
          saturation = (100 / 16) * of_int satField;
          val = (100 / 16) * of_int valField
      in (h, val, saturation))"

definition next_spec :: "int \<Rightarrow> int" where
  "next_spec s = take_bit 16 ((s * 65521) XOR (TWIST ! nat (s AND 0x3)))"

section \<open>Invariants of a run\<close>

text \<open>The two properties of a state that every callback and slider event preserves.\<close>

definition counts_ok :: "App \<Rightarrow> bool" where
  "counts_ok st \<longleftrightarrow> 0 \<le> score (session st) \<and> score (session st) \<le> guessed (session st)"

definition sat_is_val :: "App \<Rightarrow> bool" where
  "sat_is_val st \<longleftrightarrow> saturation (round_st st) = value_r (round_st st)"

section \<open>Rounding: facts\<close>

lemma pow2_powi: "pow2 e = 2 powi e"
  by (simp add: pow2_def power_int_def inverse_eq_divide power_one_over)

lemma pow2_pos: "0 < pow2 e"
  by (simp add: pow2_powi)

lemma pow2_add: "pow2 (a + b) = pow2 a * pow2 b"
  by (simp add: pow2_powi power_int_add)

lemma pow2_nat: "pow2 (int n) = 2 ^ n"
  by (simp add: pow2_def)

lemma pow2_less_iff: "pow2 a < pow2 b \<longleftrightarrow> a < b"
proof
  assume "pow2 a < pow2 b"
  show "a < b"
  proof (rule ccontr)
    assume "\<not> a < b"
    then have "b \<le> a" by simp
    then have "pow2 b \<le> pow2 a" unfolding pow2_powi by (intro power_int_increasing) simp_all
    with \<open>pow2 a < pow2 b\<close> show False by simp
  qed
next
  assume "a < b"
  then show "pow2 a < pow2 b" unfolding pow2_powi by (intro power_int_strict_increasing) simp_all
qed

text \<open>\<open>binade\<close> finds the power of two at or below a positive rational.\<close>

lemma binade_ge1:
  assumes "1 \<le> x"
  shows "pow2 (binade x) \<le> x \<and> x < pow2 (binade x + 1)"
proof -
  let ?n = "\<lfloor>x\<rfloor>"
  have n: "0 < ?n" using assms by simp
  have b1: "1 \<le> bitlen ?n" using n bitlen_eq_zero_iff [of ?n] bitlen_nonneg [of ?n] by linarith
  from bitlen_bounds [OF n]
  have lo: "2 ^ nat (bitlen ?n - 1) \<le> ?n" and hi: "?n < 2 ^ nat (bitlen ?n)" by auto
  have "(2::rat) ^ nat (bitlen ?n - 1) = of_int (2 ^ nat (bitlen ?n - 1))" by simp
  also have "\<dots> \<le> of_int ?n" using lo by (simp only: of_int_le_iff)
  also have "\<dots> \<le> x" by simp
  finally have A: "pow2 (binade x) \<le> x" using assms b1 by (simp add: binade_def pow2_def)
  have "?n + 1 \<le> 2 ^ nat (bitlen ?n)" using hi by simp
  then have "(of_int (?n + 1) :: rat) \<le> of_int (2 ^ nat (bitlen ?n))" by (simp only: of_int_le_iff)
  moreover have "x < of_int (?n + 1)" by linarith
  ultimately have "x < 2 ^ nat (bitlen ?n)" by simp
  then have B: "x < pow2 (binade x + 1)" using assms b1 by (simp add: binade_def pow2_def)
  show ?thesis using A B ..
qed

lemma binade_lt1:
  assumes "0 < x" "x < 1"
  shows "pow2 (binade x) \<le> x \<and> x < pow2 (binade x + 1)"
proof -
  let ?y = "1 / x"
  let ?n = "\<lceil>?y\<rceil> - 1"
  let ?j = "bitlen ?n"
  have y: "1 < ?y" using assms by simp
  have n: "0 < ?n" using y by linarith
  have j1: "1 \<le> ?j" using n bitlen_eq_zero_iff [of ?n] bitlen_nonneg [of ?n] by linarith
  from bitlen_bounds [OF n]
  have lo: "2 ^ nat (?j - 1) \<le> ?n" and hi: "?n < 2 ^ nat ?j" by auto
  have be: "binade x = - ?j" using assms by (simp add: binade_def)
  have c: "\<lceil>?y\<rceil> \<le> 2 ^ nat ?j" using hi by simp
  have "?y \<le> of_int \<lceil>?y\<rceil>" by (rule le_of_int_ceiling)
  also have "(of_int \<lceil>?y\<rceil> :: rat) \<le> of_int (2 ^ nat ?j)" using c by (simp only: of_int_le_iff)
  also have "\<dots> = 2 ^ nat ?j" by simp
  finally have "?y \<le> 2 ^ nat ?j" .
  then have "1 \<le> 2 ^ nat ?j * x" using assms(1) by (simp add: pos_divide_le_eq)
  then have "1 / 2 ^ nat ?j \<le> x" by (simp add: pos_divide_le_eq mult.commute)
  moreover have "pow2 (- ?j) = 1 / 2 ^ nat ?j" using j1 by (simp add: pow2_def)
  ultimately have A: "pow2 (binade x) \<le> x" by (simp add: be)
  have "(of_int (2 ^ nat (?j - 1)) :: rat) \<le> of_int ?n" using lo by (simp only: of_int_le_iff)
  moreover have "of_int ?n < ?y" by linarith
  ultimately have "2 ^ nat (?j - 1) < ?y" by simp
  then have "2 ^ nat (?j - 1) * x < 1" using assms(1) by (simp add: pos_less_divide_eq)
  then have "x < 1 / 2 ^ nat (?j - 1)" by (simp add: pos_less_divide_eq mult.commute)
  moreover have "pow2 (- ?j + 1) = 1 / 2 ^ nat (?j - 1)" using j1 by (auto simp: pow2_def)
  ultimately have B: "x < pow2 (binade x + 1)" by (simp add: be)
  show ?thesis using A B ..
qed

lemma binade_bounds: "0 < x \<Longrightarrow> pow2 (binade x) \<le> x \<and> x < pow2 (binade x + 1)"
  using binade_ge1 [of x] binade_lt1 [of x] by (cases "1 \<le> x") simp_all

lemma roundHalfEven_of_int: "roundHalfEven (of_int n) = n"
  by (simp add: roundHalfEven_def)

text \<open>
  A dyadic rational whose numerator has at most 53 bits is a double, and rounding leaves it
  as it is.
\<close>

lemma roundDouble_exact:
  assumes "\<bar>m\<bar> < 2 ^ 53"
  shows "roundDouble (of_int m / 2 ^ j) = of_int m / 2 ^ j"
proof (cases "m = 0")
  case True
  then show ?thesis by (simp add: roundDouble_def)
next
  case False
  define x :: rat where "x = of_int m / 2 ^ j"
  define a where "a = \<bar>x\<bar>"
  define e where "e = binade a"
  have a: "a = of_int \<bar>m\<bar> * pow2 (- int j)"
    by (simp add: a_def x_def pow2_powi power_int_minus field_simps)
  have apos: "0 < a" using False by (simp add: a_def x_def)
  from binade_bounds [OF apos] have lo: "pow2 e \<le> a" by (simp add: e_def)
  have "(of_int \<bar>m\<bar> :: rat) < of_int (2 ^ 53)" using assms by (simp only: of_int_less_iff)
  then have "of_int \<bar>m\<bar> * pow2 (- int j) < pow2 53 * pow2 (- int j)"
    using pow2_pos [of "- int j"] by (simp add: pow2_def)
  then have "a < pow2 (53 - int j)" using pow2_add [of 53 "- int j"] by (simp add: a)
  with lo have "pow2 e < pow2 (53 - int j)" by simp
  then have e: "e < 53 - int j" by (simp add: pow2_less_iff)
  define d where "d = nat (52 - e - int j)"
  have d: "int d = 52 - e - int j" using e by (simp add: d_def)
  have "pow2 (- int j) = pow2 (int d) * pow2 (e - 52)"
    using pow2_add [of "int d" "e - 52"] by (simp add: d)
  then have "a = of_int (\<bar>m\<bar> * 2 ^ d) * pow2 (e - 52)"
    by (simp add: a pow2_nat)
  then have q: "a / pow2 (e - 52) = of_int (\<bar>m\<bar> * 2 ^ d)"
    using pow2_pos [of "e - 52"] by simp
  have "roundDouble x = sgn x * of_int (roundHalfEven (a / pow2 (e - 52))) * pow2 (e - 52)"
    using apos by (auto simp add: roundDouble_def Let_def a_def e_def)
  also have "\<dots> = sgn x * (a / pow2 (e - 52)) * pow2 (e - 52)"
    by (simp only: q roundHalfEven_of_int)
  also have "\<dots> = sgn x * a" using pow2_pos [of "e - 52"] by simp
  also have "\<dots> = x" by (simp add: a_def sgn_mult_abs)
  finally show ?thesis by (simp add: x_def)
qed

text \<open>The rounded value is within half a unit in the last place of the exact one.\<close>

lemma roundHalfEven_near: "\<bar>of_int (roundHalfEven q) - q\<bar> \<le> 1 / 2"
proof -
  have "of_int \<lfloor>q\<rfloor> \<le> q" "q < of_int \<lfloor>q\<rfloor> + 1" by linarith+
  then show ?thesis by (auto simp: roundHalfEven_def Let_def abs_le_iff)
qed

lemma roundDouble_near:
  assumes "x \<noteq> 0"
  shows "\<bar>roundDouble x - x\<bar> \<le> pow2 (binade \<bar>x\<bar> - 53)"
proof -
  define u where "u = pow2 (binade \<bar>x\<bar> - 52)"
  have u: "0 < u" by (simp add: u_def pow2_pos)
  have h: "pow2 (binade \<bar>x\<bar> - 53) = u / 2"
    using pow2_add [of "binade \<bar>x\<bar> - 53" 1] by (simp add: u_def pow2_def)
  have "roundDouble x - x = sgn x * (of_int (roundHalfEven (\<bar>x\<bar> / u)) - \<bar>x\<bar> / u) * u"
    using assms u mult_sgn_abs [of x]
    by (simp add: roundDouble_def Let_def u_def [symmetric] algebra_simps)
  then have "\<bar>roundDouble x - x\<bar> = \<bar>of_int (roundHalfEven (\<bar>x\<bar> / u)) - \<bar>x\<bar> / u\<bar> * u"
    using assms u by (simp add: abs_mult abs_sgn_eq)
  also have "\<dots> \<le> 1 / 2 * u"
    using roundHalfEven_near [of "\<bar>x\<bar> / u"] u by (intro mult_right_mono) simp_all
  finally show ?thesis by (simp add: h)
qed

lemma roundDouble_nonneg: "0 \<le> x \<Longrightarrow> 0 \<le> roundDouble x"
  by (auto simp: roundDouble_def pow2_def Let_def roundHalfEven_def sgn_if)

lemma js_mul_nonneg: "0 \<le> a \<Longrightarrow> 0 \<le> b \<Longrightarrow> 0 \<le> js_mul a b"
  by (simp add: js_mul_def roundDouble_nonneg)

lemma js_div_nonneg: "0 \<le> a \<Longrightarrow> 0 \<le> b \<Longrightarrow> 0 \<le> js_div a b"
  by (simp add: js_div_def roundDouble_nonneg)

lemma js_rem_range:
  assumes "0 \<le> a" "0 < b"
  shows "0 \<le> js_rem a b \<and> js_rem a b < b"
proof -
  have q: "0 \<le> a / b" using assms by simp
  have lo: "of_int \<lfloor>a / b\<rfloor> * b \<le> a" using assms(2) by (rule floor_divide_lower)
  have hi: "a < (of_int \<lfloor>a / b\<rfloor> + 1) * b" using assms(2) by (rule floor_divide_upper)
  show ?thesis using q lo hi by (simp add: js_rem_def js_trunc_def algebra_simps)
qed

section \<open>The derivations in closed form\<close>

lemma js_shr_consts:
  "js_shr 0xff00 8 = 0xff" "js_shr 0x7f00 8 = 0x7f" "js_shr 0xf0 4 = 0xf"
  by (simp_all add: js_shr_def toInt32_def)

lemma js_and_mask:
  "0 \<le> js_and s 0xf \<and> js_and s 0xf \<le> 15"
  "0 \<le> js_and s 0x7f \<and> js_and s 0x7f \<le> 127"
  "0 \<le> js_and s 0xff \<and> js_and s 0xff \<le> 255"
  by (simp_all add: js_and_def toInt32_def AND_upper2)

lemma js_div_consts:
  "js_div 360 6 = 60" "js_div 360 16 = 45 / 2" "js_div 360 64 = 45 / 8"
  "js_div 100 4 = 25" "js_div 100 8 = 25 / 2" "js_div 100 16 = 25 / 4"
  by code_simp+

lemma js_div_pow2:
  assumes "\<bar>k\<bar> < 2 ^ 53"
  shows "js_div (of_int k) (2 ^ j) = of_int k / 2 ^ j"
  using roundDouble_exact [OF assms, of j] by (simp add: js_div_def)

lemma js_mul_dyadic:
  assumes "\<bar>m * k\<bar> < 2 ^ 53"
  shows "js_mul (of_int m / 2 ^ i) (of_int k / 2 ^ j) = of_int (m * k) / 2 ^ (i + j)"
  using roundDouble_exact [OF assms, of "i + j"] by (simp add: js_mul_def power_add)

lemma nibble_exact:
  assumes "0 \<le> k" "k \<le> 15"
  shows "js_mul 25 (js_div (of_int k) 4) = 25 / 4 * of_int k"
    and "js_mul (25 / 2) (js_div (of_int k) 2) = 25 / 4 * of_int k"
    and "js_mul (25 / 4) (of_int k) = 25 / 4 * of_int k"
proof -
  have k: "\<bar>k\<bar> < 2 ^ 53" "\<bar>25 * k\<bar> < 2 ^ 53" using assms by simp_all
  have d4: "js_div (of_int k) 4 = of_int k / 4"
    using js_div_pow2 [OF k(1), of 2] by simp
  have d2: "js_div (of_int k) 2 = of_int k / 2"
    using js_div_pow2 [OF k(1), of 1] by simp
  have m4: "js_mul 25 (of_int k / 4) = 25 / 4 * of_int k"
    using js_mul_dyadic [OF k(2), of 0 2] by simp
  have m2: "js_mul (25 / 2) (of_int k / 2) = 25 / 4 * of_int k"
    using js_mul_dyadic [OF k(2), of 1 1] by simp
  show "js_mul 25 (js_div (of_int k) 4) = 25 / 4 * of_int k"
    by (simp only: d4 m4)
  show "js_mul (25 / 2) (js_div (of_int k) 2) = 25 / 4 * of_int k"
    by (simp only: d2 m2)
  show "js_mul (25 / 4) (of_int k) = 25 / 4 * of_int k"
    using js_mul_dyadic [OF k(2), of 2 0] by simp
qed

lemma hue_exact:
  assumes "0 \<le> n" "n \<le> 255"
  shows "js_mul (45 / 8) (of_int n) = 45 / 8 * of_int n"
    and "js_div (js_mul (45 / 2) (of_int n)) 16 = 45 / 32 * of_int n"
proof -
  have n: "\<bar>45 * n\<bar> < 2 ^ 53" using assms by simp
  show "js_mul (45 / 8) (of_int n) = 45 / 8 * of_int n"
    using js_mul_dyadic [OF n, of 3 0] by simp
  have m: "js_mul (45 / 2) (of_int n) = of_int (45 * n) / 2"
    using js_mul_dyadic [OF n, of 1 0] by simp
  have "roundDouble (of_int (45 * n) / 2 ^ 5) = of_int (45 * n) / 2 ^ 5"
    using n by (rule roundDouble_exact)
  then have d: "js_div (of_int (45 * n) / 2) 16 = 45 / 32 * of_int n"
    by (simp add: js_div_def)
  show "js_div (js_mul (45 / 2) (of_int n)) 16 = 45 / 32 * of_int n"
    by (simp only: m d)
qed

text \<open>
  What the three derivations compute. Every operation of the Medium and Hard derivations is
  exact; the hue of the Easy derivation keeps its two roundings.
\<close>

lemma makeHSVHard_eq:
  "makeHSVHard sd =
     (js_rem (45 / 8 * of_int (js_and sd 0x7f)) 360,
      25 / 4 * of_int (js_and sd 0xf), 25 / 4 * of_int (js_and sd 0xf))"
  using js_and_mask [of sd]
  by (simp add: makeHSVHard_def js_shr_consts js_div_consts nibble_exact hue_exact)

lemma makeHSVMedium_eq:
  "makeHSVMedium sd =
     (45 / 32 * of_int (js_and sd 0xff),
      25 / 4 * of_int (js_and sd 0xf), 25 / 4 * of_int (js_and sd 0xf))"
proof -
  have "js_rem (45 / 32 * of_int (js_and sd 0xff)) 360 = 45 / 32 * of_int (js_and sd 0xff)"
  proof -
    have "(0::rat) \<le> of_int (js_and sd 0xff)" "(of_int (js_and sd 0xff) :: rat) \<le> 255"
      using js_and_mask(3) [of sd] by (simp_all only: of_int_0_le_iff of_int_le_numeral_iff)
    then have "\<lfloor>45 / 32 * of_int (js_and sd 0xff) / (360::rat)\<rfloor> = 0"
      by (intro floor_unique) simp_all
    moreover have "0 \<le> 45 / 32 * (of_int (js_and sd 0xff) :: rat) / 360"
      using \<open>(0::rat) \<le> of_int (js_and sd 0xff)\<close> by simp
    ultimately show ?thesis by (simp add: js_rem_def js_trunc_def)
  qed
  then show ?thesis
    using js_and_mask [of sd]
    by (simp add: makeHSVMedium_def js_shr_consts js_div_consts nibble_exact hue_exact)
qed

lemma makeHSVEasy_eq:
  "makeHSVEasy sd =
     (js_rem (js_mul 60 (js_div (of_int (js_and sd 0xff)) 6)) 360,
      25 / 4 * of_int (js_and sd 0xf), 25 / 4 * of_int (js_and sd 0xf))"
  using js_and_mask [of sd]
  by (simp add: makeHSVEasy_def js_shr_consts js_div_consts nibble_exact)

text \<open>
  The hue of the Easy derivation is not always a multiple of 10: at the seed 25 the two
  roundings give \<open>250.00000000000003\<close>.
\<close>

lemma makeHSVEasy_25:
  "makeHSVEasy 25 = (8796093022208001 / 35184372088832, 225 / 4, 225 / 4)"
  by code_simp

section \<open>The seed stepper\<close>

lemma and_3_range: "0 \<le> (s::int) AND 3 \<and> s AND 3 \<le> 3"
  by (simp add: AND_upper2)

lemma js_index_TWIST: "js_index TWIST (js_and s 0x3) = TWIST ! nat (s AND 3)"
proof -
  have m: "x AND 3 = take_bit 2 x" for x :: int
    by (simp add: take_bit_eq_mask mask_eq_exp_minus_1)
  have a: "js_and s 3 = s AND 3"
    by (simp add: js_and_def toInt32_def m take_bit_signed_take_bit)
  have len: "length TWIST = 4" by (simp add: TWIST_def)
  have lt: "nat (s AND 3) < length TWIST" unfolding len using and_3_range [of s] by linarith
  show ?thesis using lt and_3_range [of s] by (simp only: a js_index_def) simp
qed

lemma TWIST_int32: "toInt32 (TWIST ! nat (s AND 3)) = TWIST ! nat (s AND 3)"
proof -
  have "s AND 3 \<in> set [0..3]" using and_3_range [of s] by simp
  then have "s AND 3 \<in> {0, 1, 2, 3}" by (simp add: upto.simps)
  then show ?thesis by (auto simp: TWIST_def toInt32_def)
qed

lemma next_seed_low16: "take_bit 16 (next_seed s) = next_spec s"
proof -
  let ?t = "TWIST ! nat (s AND 3)"
  have "next_seed s = signed_take_bit 31 (s * 65521) XOR ?t"
    using TWIST_int32 [of s] by (simp only: next_seed_def js_xor_def js_index_TWIST) (simp only: toInt32_def)
  then have "take_bit 16 (next_seed s) = take_bit 16 (signed_take_bit 31 (s * 65521)) XOR take_bit 16 ?t"
    by (simp only: take_bit_xor)
  also have "take_bit 16 (signed_take_bit 31 (s * 65521)) = take_bit 16 (s * 65521)"
    by (rule take_bit_signed_take_bit) simp
  also have "take_bit 16 (s * 65521) XOR take_bit 16 ?t = take_bit 16 ((s * 65521) XOR ?t)"
    by (simp only: take_bit_xor)
  finally show ?thesis by (simp only: next_spec_def)
qed

text \<open>
  C1. The claim: for every 16-bit seed \<open>s\<close>, \<open>next(s)\<close> is
  \<open>(s * 65521) XOR T[s & 3]\<close> truncated to 16 bits, and so lies between 0 and 65535.
  The source does not truncate: \<open>next\<close> returns the signed 32-bit result of \<open>^\<close>.
  At the seed 2 it returns 117083, where the claim gives 51547, and at the seed 65535 it
  returns a negative number. The 16 low bits of the result are those of the claim
  (\<open>next_seed_low16\<close>), with the twist taken from the seed before the multiplication.
\<close>

theorem next_seed_not_16_bit:
  "next_seed 2 = 117083 \<and> next_spec 2 = 51547 \<and> next_seed 65535 = - 1037580"
  by (simp add: next_seed_def next_spec_def js_xor_def js_and_def js_index_def toInt32_def
      TWIST_def)

section \<open>The colour of a seed\<close>

text \<open>
  C2. The claim: the Hard derivation takes the hue from bits 8 to 14 of the seed,
  \<open>(s & 0x7F00) >> 8\<close>, the saturation from bits 4 to 7 and the value from bits 0 to 3.
  The source computes \<open>seed & (0x7f00 >> 8)\<close>, the bits 0 to 6 of the seed
  (\<open>makeHSVHard_eq\<close>), and both other components from bits 0 to 3. At the seed
  \<open>0x100\<close> the source gives the hue 0, where the claim gives \<open>5.625\<close>.
\<close>

theorem makeHSVHard_low_bits:
  "makeHSVHard 0x100 = (0, 0, 0) \<and> makeHSVHard_spec 0x100 = (45 / 8, 0, 0)"
  by code_simp

text \<open>
  C3. The claim: the seed \<open>0x7F0F\<close> under Hard gives the hue \<open>354.375\<close>, the
  saturation 0 and the value \<open>93.75\<close>. The source gives the hue \<open>84.375\<close> (from
  the bits 0 to 6 of the seed, \<open>15\<close>), and \<open>93.75\<close> for both the saturation and the
  value of the round.
\<close>

theorem makeRound_Hard_7F0F:
  "makeHSV Hard 0x7F0F = (675 / 8, 375 / 4, 375 / 4) \<and>
   hue (makeRound Hard 0x7F0F) = 675 / 8 \<and>
   saturation (makeRound Hard 0x7F0F) = 375 / 4 \<and>
   value_r (makeRound Hard 0x7F0F) = 375 / 4 \<and>
   makeHSVHard_spec 0x7F0F = (2835 / 8, 375 / 4, 0)"
  by code_simp

text \<open>
  C4. For every difficulty and every seed (16-bit or not), the colour of \<open>makeHSV\<close> has its
  hue in \<open>[0, 360)\<close> and its two other components in \<open>[0, 100]\<close>; no component is
  negative.
\<close>

theorem makeHSV_range:
  "case makeHSV d s of (h, v, sa) \<Rightarrow>
     0 \<le> h \<and> h < 360 \<and> 0 \<le> sa \<and> sa \<le> 100 \<and> 0 \<le> v \<and> v \<le> 100"
proof -
  have k: "(0::rat) \<le> of_int (js_and s 0xf)" "(of_int (js_and s 0xf) :: rat) \<le> 15"
    using js_and_mask(1) [of s] by (simp_all only: of_int_0_le_iff of_int_le_numeral_iff)
  have n: "(0::rat) \<le> of_int (js_and s 0xff)" "(of_int (js_and s 0xff) :: rat) \<le> 255"
    using js_and_mask(3) [of s] by (simp_all only: of_int_0_le_iff of_int_le_numeral_iff)
  have m: "(0::rat) \<le> of_int (js_and s 0x7f)"
    using js_and_mask(2) [of s] by (simp_all only: of_int_0_le_iff)
  have e: "0 \<le> js_rem (js_mul 60 (js_div (of_int (js_and s 0xff)) 6)) 360 \<and>
      js_rem (js_mul 60 (js_div (of_int (js_and s 0xff)) 6)) 360 < 360"
    using n(1) by (intro js_rem_range js_mul_nonneg js_div_nonneg) simp_all
  have h: "0 \<le> js_rem (45 / 8 * of_int (js_and s 0x7f)) 360 \<and>
      js_rem (45 / 8 * of_int (js_and s 0x7f)) 360 < 360"
    using m by (intro js_rem_range) simp_all
  show ?thesis
    using k n e h by (cases d) (simp_all add: makeHSVEasy_eq makeHSVMedium_eq makeHSVHard_eq)
qed

lemma makeHSV_sat_val: "fst (snd (makeHSV d s)) = snd (snd (makeHSV d s))"
  by (cases d) (simp_all add: makeHSVEasy_eq makeHSVMedium_eq makeHSVHard_eq)

lemma makeRound_sat_val: "saturation (makeRound d s) = value_r (makeRound d s)"
  using makeHSV_sat_val [of d s] by (cases "makeHSV d s") (simp add: makeRound_def)

lemma sat_is_val_step: "sat_is_val st \<Longrightarrow> sat_is_val (step ev st)"
  by (cases ev) (simp_all add: sat_is_val_def doCheck_def doNext_def makeRound_sat_val Let_def)

lemma sat_is_val_run: "sat_is_val st \<Longrightarrow> sat_is_val (run evs st)"
  unfolding run_def by (induction evs arbitrary: st) (simp_all add: sat_is_val_step)

lemma sat_is_val_init: "sat_is_val (initApp now)"
  by (simp add: sat_is_val_def initApp_def Let_def makeRound_sat_val)

text \<open>
  C10. For every difficulty and every seed, the second and the third component of
  \<open>makeHSV\<close> are equal, so the saturation of a round equals its value: for the round
  \<open>makeRound\<close> returns, and for the round of every state of a run.
\<close>

theorem saturation_eq_value:
  "fst (snd (makeHSV d s)) = snd (snd (makeHSV d s)) \<and>
   saturation (makeRound d s) = value_r (makeRound d s) \<and>
   saturation (round_st (run evs (initApp now))) = value_r (round_st (run evs (initApp now)))"
  using makeHSV_sat_val [of d s] makeRound_sat_val [of d s]
    sat_is_val_run [OF sat_is_val_init, of evs now]
  by (simp add: sat_is_val_def)

section \<open>Rounds and sessions\<close>

text \<open>
  C8. \<open>makeRound d s\<close> is a round whose colour is \<open>makeHSV d s\<close>, component by
  component, whose seed is \<open>next s\<close> and whose checking flag is false; so the round
  \<open>doNext\<close> makes from a round with the seed \<open>c\<close> has the colour
  \<open>makeHSV\<close> gives for the difficulty of the session and \<open>c\<close>.
\<close>

theorem makeRound_fields:
  "(hue (makeRound d s), saturation (makeRound d s), value_r (makeRound d s)) = makeHSV d s \<and>
   seed_r (makeRound d s) = next_seed s \<and>
   checking_r (makeRound d s) = False \<and>
   (hue (doNext ses rnd), saturation (doNext ses rnd), value_r (doNext ses rnd)) =
     makeHSV (difficulty ses) (seed_r rnd) \<and>
   seed_r (doNext ses rnd) = next_seed (seed_r rnd) \<and>
   checking_r (doNext ses rnd) = False"
  by (cases "makeHSV d s"; cases "makeHSV (difficulty ses) (seed_r rnd)")
    (simp add: makeRound_def doNext_def)

text \<open>
  C6. \<open>doCheck\<close> adds exactly 1 to \<open>guessed\<close>. It adds 1 to \<open>score\<close> exactly when the
  three slider values equal the hue, the saturation and the value of the round, and leaves
  \<open>score\<close> as it is otherwise.
\<close>

theorem doCheck_counts:
  "guessed (fst (doCheck ses rnd h s v)) = guessed ses + 1 \<and>
   (score (fst (doCheck ses rnd h s v)) = score ses + 1 \<longleftrightarrow>
      h = hue rnd \<and> s = saturation rnd \<and> v = value_r rnd) \<and>
   (score (fst (doCheck ses rnd h s v)) = score ses \<or>
    score (fst (doCheck ses rnd h s v)) = score ses + 1)"
  by (simp add: doCheck_def Let_def)

text \<open>
  C7. \<open>doCheck\<close> sets the checking flag of the round and changes no other field of it: the
  hue, the saturation, the value and the seed of the round are what they were.
\<close>

theorem doCheck_round_frame:
  "checking_r (snd (doCheck ses rnd h s v)) = True \<and>
   hue (snd (doCheck ses rnd h s v)) = hue rnd \<and>
   saturation (snd (doCheck ses rnd h s v)) = saturation rnd \<and>
   value_r (snd (doCheck ses rnd h s v)) = value_r rnd \<and>
   seed_r (snd (doCheck ses rnd h s v)) = seed_r rnd \<and>
   snd (doCheck ses rnd h s v) = rnd\<lparr>checking_r := True\<rparr>"
  by (simp add: doCheck_def Let_def)

text \<open>
  C9. \<open>doNext\<close> leaves the session as it is (its seed, difficulty, \<open>guessed\<close> and
  \<open>score\<close>), and the sliders; it replaces the round by the one made from the seed of the
  old round.
\<close>

theorem doNext_session_frame:
  "session (step Next st) = session st \<and>
   seed (session (step Next st)) = seed (session st) \<and>
   difficulty (session (step Next st)) = difficulty (session st) \<and>
   guessed (session (step Next st)) = guessed (session st) \<and>
   score (session (step Next st)) = score (session st) \<and>
   round_st (step Next st) = makeRound (difficulty (session st)) (seed_r (round_st st)) \<and>
   hue_in (step Next st) = hue_in st \<and> sat_in (step Next st) = sat_in st \<and>
   val_in (step Next st) = val_in st"
  by (simp add: doNext_def)

lemma step_counts:
  "guessed (session st) \<le> guessed (session (step ev st)) \<and>
   guessed (session (step ev st)) \<le> guessed (session st) + 1 \<and>
   score (session st) \<le> score (session (step ev st)) \<and>
   score (session (step ev st)) \<le> score (session st) + 1 \<and>
   score (session (step ev st)) - score (session st) \<le> 
     guessed (session (step ev st)) - guessed (session st)"
  by (cases ev) (simp_all add: doCheck_def Let_def)

lemma counts_ok_step: "counts_ok st \<Longrightarrow> counts_ok (step ev st)"
  using step_counts [of st ev] by (simp add: counts_ok_def)

lemma counts_ok_run: "counts_ok st \<Longrightarrow> counts_ok (run evs st)"
  unfolding run_def by (induction evs arbitrary: st) (simp_all add: counts_ok_step)

lemma counts_ok_init: "counts_ok (initApp now)"
  by (simp add: counts_ok_def initApp_def initSession_def Let_def)

text \<open>
  C5. In every state of a run from the initial state (where \<open>guessed\<close> and \<open>score\<close> are
  0), whatever the events and their order, \<open>0 \<le> score \<le> guessed\<close>; and every event
  leaves each of the two counters as it is or adds 1 to it.
\<close>

theorem score_le_guessed:
  "0 \<le> score (session (run evs (initApp now))) \<and>
   score (session (run evs (initApp now))) \<le> guessed (session (run evs (initApp now))) \<and>
   0 \<le> guessed (session (run evs (initApp now))) \<and>
   guessed (session (run evs (initApp now)))
     \<le> guessed (session (step ev (run evs (initApp now)))) \<and>
   guessed (session (step ev (run evs (initApp now))))
     \<le> guessed (session (run evs (initApp now))) + 1 \<and>
   score (session (run evs (initApp now)))
     \<le> score (session (step ev (run evs (initApp now)))) \<and>
   score (session (step ev (run evs (initApp now))))
     \<le> score (session (run evs (initApp now))) + 1"
  using counts_ok_run [OF counts_ok_init, of evs now]
    step_counts [of "run evs (initApp now)" ev]
  by (simp add: counts_ok_def)

end
